theory Spec2Isabelle
  imports Main "HOL-Library.Sublist" "HOL-Library.AList"
begin

section \<open>Python strings and built-ins used by \<^verbatim>\<open>epubtokens.py\<close>\<close>

text \<open>
  A Python \<^verbatim>\<open>str\<close> is represented by its UTF-8 encoding, a \<^typ>\<open>string\<close>
  (characters are bytes); \<^verbatim>\<open>bytes\<close> are strings as well. The empty
  \<^verbatim>\<open>str\<close> is the empty list, and concatenation is \<open>@\<close>.
\<close>

definition byte :: "char \<Rightarrow> nat" where
  "byte c = of_char c"

text \<open>\<^verbatim>\<open>str.lower()\<close>, on the ASCII letters (the only ones that can produce
  the characters of \<^verbatim>\<open>'.epub'\<close>).\<close>

definition lower_char :: "char \<Rightarrow> char" where
  "lower_char c = (if 65 \<le> byte c \<and> byte c \<le> 90 then char_of (byte c + 32) else c)"

definition lower :: "string \<Rightarrow> string" where
  "lower s = map lower_char s"

definition endswith :: "string \<Rightarrow> string \<Rightarrow> bool" where
  "endswith s suf = (length suf \<le> length s \<and> drop (length s - length suf) s = suf)"

text \<open>\<^verbatim>\<open>s.replace(",", "")\<close>\<close>

definition remove_commas :: "string \<Rightarrow> string" where
  "remove_commas s = filter (\<lambda>c. c \<noteq> CHR '','') s"

text \<open>
  \<^verbatim>\<open>int(s)\<close> for a \<^verbatim>\<open>str\<close>: surrounding white space is stripped, one sign is
  allowed, then decimal digits with single underscores between digits. \<open>None\<close> is
  \<^verbatim>\<open>ValueError\<close>. Only ASCII digits and white space are modelled, and no bound on
  the number of digits.
\<close>

definition is_space :: "char \<Rightarrow> bool" where
  "is_space c = (byte c = 32 \<or> (9 \<le> byte c \<and> byte c \<le> 13) \<or> (28 \<le> byte c \<and> byte c \<le> 31))"

definition is_digit :: "char \<Rightarrow> bool" where
  "is_digit c = (48 \<le> byte c \<and> byte c \<le> 57)"

definition digit_val :: "char \<Rightarrow> nat" where
  "digit_val c = byte c - 48"

definition strip :: "string \<Rightarrow> string" where
  "strip s = rev (dropWhile is_space (rev (dropWhile is_space s)))"

fun parse_digits :: "bool \<Rightarrow> nat \<Rightarrow> string \<Rightarrow> nat option" where
  "parse_digits prev acc [] = (if prev then Some acc else None)"
| "parse_digits prev acc (c # cs) =
     (if is_digit c then parse_digits True (10 * acc + digit_val c) cs
      else if c = CHR ''_'' \<and> prev then parse_digits False acc cs
      else None)"

definition py_int :: "string \<Rightarrow> int option" where
  "py_int s =
     (case strip s of
        [] \<Rightarrow> None
      | c # cs \<Rightarrow>
          if c = CHR ''-'' then map_option (\<lambda>n. - int n) (parse_digits False 0 cs)
          else if c = CHR ''+'' then map_option int (parse_digits False 0 cs)
          else map_option int (parse_digits False 0 (c # cs)))"

text \<open>Truthiness of an \<^verbatim>\<open>Optional[str]\<close> and of an \<^verbatim>\<open>Optional[int]\<close>.\<close>

fun truthy_str :: "string option \<Rightarrow> bool" where
  "truthy_str None = False"
| "truthy_str (Some s) = (s \<noteq> [])"

fun truthy_int :: "int option \<Rightarrow> bool" where
  "truthy_int None = False"
| "truthy_int (Some n) = (n \<noteq> 0)"

subsection \<open>\<^verbatim>\<open>bytes.decode("utf-8", errors="ignore")\<close>\<close>

text \<open>
  \<open>wf_len bs\<close> is the length of the well-formed UTF-8 sequence that starts \<open>bs\<close>
  (Unicode, table 3-7), and 0 when none does. The decoder keeps each well-formed
  sequence and drops every byte at which none starts; it never raises.
\<close>

definition cont :: "char \<Rightarrow> bool" where
  "cont c = (128 \<le> byte c \<and> byte c \<le> 191)"

definition second_ok :: "char \<Rightarrow> char \<Rightarrow> bool" where
  "second_ok l c =
     (if byte l = 224 then 160 \<le> byte c \<and> byte c \<le> 191
      else if byte l = 237 then 128 \<le> byte c \<and> byte c \<le> 159
      else if byte l = 240 then 144 \<le> byte c \<and> byte c \<le> 191
      else if byte l = 244 then 128 \<le> byte c \<and> byte c \<le> 143
      else cont c)"

fun wf_len :: "string \<Rightarrow> nat" where
  "wf_len [] = 0"
| "wf_len (l # cs) =
     (if byte l < 128 then 1
      else if 194 \<le> byte l \<and> byte l \<le> 223 then
        (case cs of a # _ \<Rightarrow> if cont a then 2 else 0 | _ \<Rightarrow> 0)
      else if 224 \<le> byte l \<and> byte l \<le> 239 then
        (case cs of a # b # _ \<Rightarrow> if second_ok l a \<and> cont b then 3 else 0 | _ \<Rightarrow> 0)
      else if 240 \<le> byte l \<and> byte l \<le> 244 then
        (case cs of a # b # c # _ \<Rightarrow> if second_ok l a \<and> cont b \<and> cont c then 4 else 0
         | _ \<Rightarrow> 0)
      else 0)"

function decode_ignore :: "string \<Rightarrow> string" where
  "decode_ignore [] = []"
| "decode_ignore (c # cs) =
     (if wf_len (c # cs) = 0 then decode_ignore cs
      else take (wf_len (c # cs)) (c # cs) @ decode_ignore (drop (wf_len (c # cs)) (c # cs)))"
  by pat_completeness auto
termination
  by (relation "measure length") auto

subsection \<open>\<^verbatim>\<open>os.path\<close> and \<^verbatim>\<open>pathlib\<close> on POSIX path strings\<close>

fun split_on :: "char \<Rightarrow> string \<Rightarrow> string list" where
  "split_on d [] = [[]]"
| "split_on d (c # cs) =
     (if c = d then [] # split_on d cs
      else (case split_on d cs of x # xs \<Rightarrow> (c # x) # xs | [] \<Rightarrow> [[c]]))"

text \<open>\<^verbatim>\<open>os.path.basename(p)\<close>: what follows the last slash.\<close>

definition basename :: "string \<Rightarrow> string" where
  "basename p = last (split_on (CHR ''/'') p)"

text \<open>\<^verbatim>\<open>os.path.join(a, b)\<close>\<close>

definition join :: "string \<Rightarrow> string \<Rightarrow> string" where
  "join a b =
     (if b \<noteq> [] \<and> hd b = CHR ''/'' then b
      else if a = [] \<or> last a = CHR ''/'' then a @ b
      else a @ ''/'' @ b)"

text \<open>\<^verbatim>\<open>Path(p).name\<close>: the last component, empty and \<^verbatim>\<open>.\<close> components dropped.\<close>

definition path_name :: "string \<Rightarrow> string" where
  "path_name p =
     (case rev (filter (\<lambda>c. c \<noteq> [] \<and> c \<noteq> ''.'') (split_on (CHR ''/'') p)) of
        [] \<Rightarrow> []
      | c # _ \<Rightarrow> c)"

section \<open>The world the program runs in\<close>

subsection \<open>Archives as \<^verbatim>\<open>ebooklib\<close> presents them\<close>

text \<open>
  An item of a book has a declared media type and a content; \<open>get_content\<close> is
  \<open>None\<close> when \<^verbatim>\<open>item.get_content()\<close> raises. \<open>dc_title\<close> is
  \<^verbatim>\<open>book.get_metadata("DC", "title")\<close>, one entry per title element, each the
  element's text (\<open>None\<close> for an element without text).
\<close>

datatype epub_item = Item (media_type: string) (get_content: "string option")

datatype epub_book = Book (dc_title: "string option list") (get_items: "epub_item list")

subsection \<open>The file system\<close>

text \<open>
  A file system maps a key (the list of the names from the root) to a node, in the
  order in which a directory is enumerated. A regular file has a byte size and what
  \<^verbatim>\<open>epub.read_epub\<close> makes of it (\<open>None\<close>: it raises). \<open>Loop\<close> is a
  symbolic link that cannot be followed (it points to itself): a \<^verbatim>\<open>stat\<close>
  through it raises \<^verbatim>\<open>OSError\<close>. The root is a directory and has no entry.
\<close>

type_synonym key = "string list"

datatype node = Dir | File nat "epub_book option" | Loop

type_synonym filesys = "(key \<times> node) list"

text \<open>
  What the program cannot see of its environment: the current directory, the
  tokenizer (\<open>None\<close>: \<^verbatim>\<open>tiktoken\<close> raises), and what the operating system
  refuses (permissions, devices).
\<close>

record env =
  cwd :: key
  encode :: "string \<Rightarrow> nat list option"
  scan_denied :: "key \<Rightarrow> bool"
  open_denied :: "key \<Rightarrow> bool"
  move_denied :: "key \<Rightarrow> key \<Rightarrow> bool"

definition is_dir_key :: "filesys \<Rightarrow> key \<Rightarrow> bool" where
  "is_dir_key f k = (k = [] \<or> map_of f k = Some Dir)"

text \<open>Path resolution: every component is looked up in a directory.\<close>

fun walk :: "filesys \<Rightarrow> key \<Rightarrow> string list \<Rightarrow> key option" where
  "walk f cur [] = Some cur"
| "walk f cur (c # cs) =
     (if \<not> is_dir_key f cur then None
      else if c = [] \<or> c = ''.'' then walk f cur cs
      else if c = ''..'' then walk f (butlast cur) cs
      else walk f (cur @ [c]) cs)"

definition resolve :: "env \<Rightarrow> filesys \<Rightarrow> string \<Rightarrow> key option" where
  "resolve e f p =
     (if p = [] then None
      else walk f (if hd p = CHR ''/'' then [] else cwd e) (split_on (CHR ''/'') p))"

text \<open>The node a path names, if the path resolves to one.\<close>

definition node_at :: "env \<Rightarrow> filesys \<Rightarrow> string \<Rightarrow> node option" where
  "node_at e f p =
     (case resolve e f p of
        None \<Rightarrow> None
      | Some k \<Rightarrow> if k = [] then Some Dir else map_of f k)"

text \<open>\<^verbatim>\<open>os.path.exists\<close>: true of a file and of a directory alike, false on any error.\<close>

definition path_exists :: "env \<Rightarrow> filesys \<Rightarrow> string \<Rightarrow> bool" where
  "path_exists e f p =
     (case node_at e f p of Some Dir \<Rightarrow> True | Some (File _ _) \<Rightarrow> True | _ \<Rightarrow> False)"

text \<open>\<^verbatim>\<open>os.path.getsize\<close>; \<open>None\<close> is \<^verbatim>\<open>OSError\<close>. A directory counts 0 bytes.\<close>

definition getsize :: "env \<Rightarrow> filesys \<Rightarrow> string \<Rightarrow> nat option" where
  "getsize e f p =
     (case node_at e f p of Some (File n _) \<Rightarrow> Some n | Some Dir \<Rightarrow> Some 0 | _ \<Rightarrow> None)"

text \<open>\<^verbatim>\<open>epub.read_epub\<close>; \<open>None\<close> is any exception it raises.\<close>

definition read_epub :: "env \<Rightarrow> filesys \<Rightarrow> string \<Rightarrow> epub_book option" where
  "read_epub e f p = (case node_at e f p of Some (File _ (Some b)) \<Rightarrow> Some b | _ \<Rightarrow> None)"

text \<open>
  \<^verbatim>\<open>os.scandir(folder)\<close>: \<open>None\<close> when the call raises (no such directory, not a
  directory, permission denied), else the entries directly inside, each with its name,
  its path \<^verbatim>\<open>os.path.join(folder, name)\<close> and its node.
\<close>

datatype entry = Entry (entry_name: string) (entry_path: string) (entry_node: node)

definition children :: "filesys \<Rightarrow> key \<Rightarrow> (string \<times> node) list" where
  "children f k =
     concat (map (\<lambda>k'. if k' \<noteq> [] \<and> butlast k' = k
                        then (case map_of f k' of Some n \<Rightarrow> [(last k', n)] | None \<Rightarrow> [])
                        else [])
                 (remdups (map fst f)))"

definition scandir :: "env \<Rightarrow> filesys \<Rightarrow> string \<Rightarrow> entry list option" where
  "scandir e f folder =
     (case resolve e f folder of
        None \<Rightarrow> None
      | Some k \<Rightarrow>
          if \<not> is_dir_key f k \<or> scan_denied e k then None
          else Some (map (\<lambda>(n, nd). Entry n (join folder n) nd) (children f k)))"

text \<open>\<^verbatim>\<open>entry.is_file()\<close>; \<open>None\<close> is the \<^verbatim>\<open>OSError\<close> of a link that cannot be followed.\<close>

fun is_file :: "entry \<Rightarrow> bool option" where
  "is_file (Entry _ _ Dir) = Some False"
| "is_file (Entry _ _ (File _ _)) = Some True"
| "is_file (Entry _ _ Loop) = None"

text \<open>
  \<^verbatim>\<open>open(path, "w")\<close>: creates the file, or truncates the one that is there;
  \<open>None\<close> when it raises.
\<close>

definition open_w :: "env \<Rightarrow> filesys \<Rightarrow> string \<Rightarrow> filesys option" where
  "open_w e f p =
     (case resolve e f p of
        None \<Rightarrow> None
      | Some k \<Rightarrow>
          if is_dir_key f k \<or> \<not> is_dir_key f (butlast k) \<or> map_of f k = Some Loop
             \<or> open_denied e k
          then None
          else Some (AList.update k (File 0 None) f))"

text \<open>
  \<^verbatim>\<open>shutil.move(src, dst)\<close> for a regular file \<open>src\<close>: into \<open>dst\<close> when that is a
  directory (refused if \<^verbatim>\<open>os.path.exists\<close> finds the name taken there), else onto
  \<open>dst\<close>, replacing what is there. \<open>None\<close> when it raises; the file system is then
  as it was.
\<close>

definition move_target :: "filesys \<Rightarrow> string \<Rightarrow> key \<Rightarrow> key" where
  "move_target f src kd = (if is_dir_key f kd then kd @ [basename src] else kd)"

definition shutil_move :: "env \<Rightarrow> filesys \<Rightarrow> string \<Rightarrow> string \<Rightarrow> filesys option" where
  "shutil_move e f src dst =
     (case (resolve e f src, resolve e f dst) of
        (Some ks, Some kd) \<Rightarrow>
          (case map_of f ks of
             Some (File n b) \<Rightarrow>
               if is_dir_key f kd
                  \<and> (case map_of f (move_target f src kd) of
                        Some Dir \<Rightarrow> True | Some (File _ _) \<Rightarrow> True | _ \<Rightarrow> False)
               then None
               else if \<not> is_dir_key f (butlast (move_target f src kd)) then None
               else if move_denied e ks (move_target f src kd) then None
               else Some (AList.update (move_target f src kd) (File n b) (AList.delete ks f))
           | _ \<Rightarrow> None)
      | _ \<Rightarrow> None)"

section \<open>\<^verbatim>\<open>TokenCounterApp\<close>\<close>

subsection \<open>State and observable effects\<close>

text \<open>
  Every effect of the program on the outside is recorded, in order, in a trace: a line
  of the log (its level, its fixed text and the path it names), the settings being
  saved, an archive being opened by \<^verbatim>\<open>epub.read_epub\<close>, the report being created, a
  row being written to it, \<^verbatim>\<open>shutil.move\<close> being called, the progress bar being set,
  the event loop being run, and the three message boxes.
\<close>

datatype level = ERROR | WARNING | INFO

datatype cell = Str string | Num int

type_synonym row = "cell list"

datatype event =
    Log level string
  | SaveSettings string string string
  | ReadEpub string
  | OpenCsv string
  | WriteRow string row
  | Move string string
  | SetProgress int
  | ProcessEvents
  | MsgCritical string
  | MsgWarning string
  | MsgInformation int string

text \<open>
  The three input fields, the instance's set of processed files and its progress bar,
  together with the file system, the rows of every report written (by the path it was
  opened under) and the trace.
\<close>

record state =
  folder_input :: string
  token_input :: string
  dest_input :: string
  processed_files :: "string set"
  progress_maximum :: int
  progress_value :: int
  fs :: filesys
  reports :: "string \<rightharpoonup> row list"
  trace :: "event list"

definition emit :: "event list \<Rightarrow> state \<Rightarrow> state" where
  "emit evs st = st\<lparr>trace := trace st @ evs\<rparr>"

definition rows_of :: "state \<Rightarrow> string \<Rightarrow> row list" where
  "rows_of st csv_file = (case reports st csv_file of Some rs \<Rightarrow> rs | None \<Rightarrow> [])"

text \<open>\<^verbatim>\<open>csv_writer.writerow(r)\<close> on the report opened as \<open>csv_file\<close>; a write to
  the open report is taken to succeed.\<close>

definition writerow :: "string \<Rightarrow> row \<Rightarrow> state \<Rightarrow> state" where
  "writerow csv_file r st =
     st\<lparr>reports := (reports st)(csv_file \<mapsto> rows_of st csv_file @ [r]),
        trace := trace st @ [WriteRow csv_file r]\<rparr>"

text \<open>
  Modelled from the spec: the settings manager (\<^verbatim>\<open>settings_manager.py\<close> is not among
  the sources). The spec has the last-used source folder, destination folder and
  threshold string read when the instance starts and written at the start of a run,
  before validation: \<^verbatim>\<open>load_settings\<close> gives the three strings that \<open>init\<close> takes, and
  \<^verbatim>\<open>save_settings\<close> is the event \<open>SaveSettings\<close>, which changes nothing else.

  \<^verbatim>\<open>__init__\<close>: the set of processed files starts empty, the fields are filled from
  the saved settings, a fresh progress bar shows -1 of 100.
\<close>

definition init :: "string \<Rightarrow> string \<Rightarrow> string \<Rightarrow> filesys \<Rightarrow> state" where
  "init input_folder output_folder token_count f =
     \<lparr>folder_input = input_folder, token_input = token_count, dest_input = output_folder,
      processed_files = {}, progress_maximum = 100, progress_value = - 1,
      fs = f, reports = Map.empty, trace = []\<rparr>"

subsection \<open>Reading one archive\<close>

definition MAX_FILE_SIZE :: nat where
  "MAX_FILE_SIZE = 100 * 1024 * 1024"

definition calculate_tokens :: "env \<Rightarrow> string \<Rightarrow> int option \<times> event list" where
  "calculate_tokens e text =
     (case encode e text of
        Some tokens \<Rightarrow> (Some (int (length tokens)), [])
      | None \<Rightarrow> (None, [Log ERROR ''Token calculation error'']))"

definition get_epub_title :: "epub_book \<Rightarrow> string \<Rightarrow> string option" where
  "get_epub_title book file_path =
     (case dc_title book of [] \<Rightarrow> Some (path_name file_path) | t # _ \<Rightarrow> t)"

text \<open>The loop of \<^verbatim>\<open>_process_epub_content\<close>, \<open>full_text\<close> being its accumulator.\<close>

fun content_loop :: "epub_item list \<Rightarrow> string \<Rightarrow> string \<times> event list" where
  "content_loop [] full_text = (full_text, [])"
| "content_loop (item # rest) full_text =
     (if media_type item = ''application/xhtml+xml'' then
        (case get_content item of
           None \<Rightarrow>
             (case content_loop rest full_text of
                (t, evs) \<Rightarrow> (t, Log ERROR ''Error processing EPUB item'' # evs))
         | Some raw \<Rightarrow>
             content_loop rest
               (if decode_ignore raw \<noteq> [] then full_text @ decode_ignore raw else full_text))
      else content_loop rest full_text)"

definition process_epub_content :: "env \<Rightarrow> epub_book \<Rightarrow> int option \<times> event list" where
  "process_epub_content e book =
     (case content_loop (get_items book) [] of
        (full_text, evs) \<Rightarrow>
          if full_text \<noteq> [] then
            (case calculate_tokens e full_text of (n, evs') \<Rightarrow> (n, evs @ evs'))
          else (None, evs))"

definition process_epub ::
    "env \<Rightarrow> filesys \<Rightarrow> string \<Rightarrow> (string option \<times> int option) \<times> event list" where
  "process_epub e f file_path =
     (if \<not> path_exists e f file_path then
        ((None, None), [Log ERROR (''File not found: '' @ file_path)])
      else
        (case getsize e f file_path of
           None \<Rightarrow> ((None, None), [Log ERROR (''Error processing '' @ file_path)])
         | Some file_size \<Rightarrow>
             if file_size > MAX_FILE_SIZE then
               ((None, None), [Log WARNING (''File too large: '' @ file_path)])
             else
               (case read_epub e f file_path of
                  None \<Rightarrow>
                    ((None, None),
                     [ReadEpub file_path, Log ERROR (''Error processing '' @ file_path)])
                | Some book \<Rightarrow>
                    (case process_epub_content e book of
                       (token_count, evs) \<Rightarrow>
                         ((get_epub_title book file_path, token_count),
                          ReadEpub file_path # evs)))))"

subsection \<open>Listing the candidates\<close>

text \<open>
  The loop of \<^verbatim>\<open>get_epub_files\<close>. The \<^verbatim>\<open>try\<close> encloses the whole loop: an
  exception ends it, and the function returns what it had collected.
\<close>

fun scan_loop :: "entry list \<Rightarrow> string list \<Rightarrow> string list \<times> event list" where
  "scan_loop [] epub_files = (epub_files, [])"
| "scan_loop (en # rest) epub_files =
     (case is_file en of
        None \<Rightarrow> (epub_files, [Log ERROR ''Error scanning directory''])
      | Some b \<Rightarrow>
          if b \<and> endswith (lower (entry_name en)) ''.epub''
          then scan_loop rest (epub_files @ [entry_path en])
          else scan_loop rest epub_files)"

definition get_epub_files :: "env \<Rightarrow> filesys \<Rightarrow> string \<Rightarrow> string list \<times> event list" where
  "get_epub_files e f folder =
     (case scandir e f folder of
        None \<Rightarrow> ([], [Log ERROR ''Error scanning directory''])
      | Some entries \<Rightarrow> scan_loop entries [])"

subsection \<open>Validation\<close>

definition validate_inputs :: "env \<Rightarrow> state \<Rightarrow> bool \<times> string" where
  "validate_inputs e st =
     (case py_int (remove_commas (token_input st)) of
        None \<Rightarrow> (False, ''Invalid token count'')
      | Some max_tokens \<Rightarrow>
          if max_tokens \<le> 0 then (False, ''Token count must be positive'')
          else if \<not> path_exists e (fs st) (folder_input st) then
            (False, ''Source folder does not exist'')
          else if \<not> path_exists e (fs st) (dest_input st) then
            (False, ''Destination folder does not exist'')
          else (True, []))"

subsection \<open>The run\<close>

text \<open>
  What the loop of \<^verbatim>\<open>start_processing\<close> does with a file that has a title and a
  count: the row first, then the move when the count is below the threshold. A move
  that raises is logged, and nothing else.
\<close>

definition record_and_move ::
    "env \<Rightarrow> string \<Rightarrow> int \<Rightarrow> string \<Rightarrow> string \<Rightarrow> string \<Rightarrow> int \<Rightarrow> state \<Rightarrow> state" where
  "record_and_move e dest_folder max_tokens csv_file file_path title token_count st =
     (let st1 = writerow csv_file [Str title, Num token_count, Str file_path] st in
      if token_count < max_tokens then
        (let dest_path = join dest_folder (basename file_path) in
         case shutil_move e (fs st1) file_path dest_path of
           Some f' \<Rightarrow>
             emit [Move file_path dest_path, Log INFO (''Moved '' @ file_path)]
               (st1\<lparr>fs := f'\<rparr>)
         | None \<Rightarrow>
             emit [Move file_path dest_path, Log ERROR (''Error moving file '' @ file_path)]
               st1)
      else st1)"

text \<open>
  One turn of the loop, on the pair of the local \<open>processed_count\<close> and the state.
  \<^verbatim>\<open>if title and token_count\<close> holds for a title that is a non-empty string and a
  count that is a non-zero integer. The turn of the event loop at the end
  (\<^verbatim>\<open>QApplication.processEvents()\<close>) is taken to return without starting another run.
\<close>

definition process_file ::
    "env \<Rightarrow> string \<Rightarrow> int \<Rightarrow> string \<Rightarrow> string \<Rightarrow> int \<times> state \<Rightarrow> int \<times> state" where
  "process_file e dest_folder max_tokens csv_file file_path cs =
     (case cs of (processed_count, st) \<Rightarrow>
        if file_path \<in> processed_files st then (processed_count, st)
        else
          (case process_epub e (fs st) file_path of
             ((title, token_count), evs) \<Rightarrow>
               (let st1 = emit evs st;
                    st2 = (case (title, token_count) of
                             (Some t, Some n) \<Rightarrow>
                               if t \<noteq> [] \<and> n \<noteq> 0
                               then record_and_move e dest_folder max_tokens csv_file
                                      file_path t n st1
                               else st1
                           | _ \<Rightarrow> st1)
                in (processed_count + 1,
                    emit [SetProgress (processed_count + 1), ProcessEvents]
                      (st2\<lparr>processed_files := insert file_path (processed_files st2),
                           progress_value := processed_count + 1\<rparr>)))))"

fun process_files ::
    "env \<Rightarrow> string \<Rightarrow> int \<Rightarrow> string \<Rightarrow> string list \<Rightarrow> int \<times> state \<Rightarrow> int \<times> state" where
  "process_files e dest_folder max_tokens csv_file [] cs = cs"
| "process_files e dest_folder max_tokens csv_file (file_path # rest) cs =
     process_files e dest_folder max_tokens csv_file rest
       (process_file e dest_folder max_tokens csv_file file_path cs)"

definition header :: row where
  "header = [Str ''Title'', Str ''Token Count'', Str ''File Path'']"

definition csv_path :: "string \<Rightarrow> string \<Rightarrow> string" where
  "csv_path dest_folder timestamp =
     join dest_folder (''epub_token_counts_'' @ timestamp @ ''.csv'')"

text \<open>
  The report once \<^verbatim>\<open>open\<close> has succeeded, leaving the file system \<open>f'\<close>: the file
  is empty, then the header row is written.
\<close>

definition begin_report :: "string \<Rightarrow> filesys \<Rightarrow> state \<Rightarrow> state" where
  "begin_report csv_file f' st =
     writerow csv_file header
       (emit [OpenCsv csv_file] (st\<lparr>fs := f', reports := (reports st)(csv_file \<mapsto> [])\<rparr>))"

text \<open>
  How a call of \<^verbatim>\<open>start_processing\<close> ends: validation refused the inputs, no
  candidate was found, the loop ran to its end, or an exception left the function
  (the report could not be opened).
\<close>

datatype outcome = Aborted | NothingToDo | Completed | Raised

text \<open>\<open>timestamp\<close> is \<^verbatim>\<open>datetime.now().strftime("%Y%m%d_%H%M%S")\<close>.\<close>

definition start_processing :: "env \<Rightarrow> string \<Rightarrow> state \<Rightarrow> outcome \<times> state" where
  "start_processing e timestamp st =
     (let st0 = emit [SaveSettings (folder_input st) (dest_input st) (token_input st)] st in
      case validate_inputs e st0 of
        (is_valid, error_message) \<Rightarrow>
          if \<not> is_valid then (Aborted, emit [MsgCritical error_message] st0)
          else
            (case py_int (remove_commas (token_input st0)) of
               None \<Rightarrow> (Raised, st0)
             | Some max_tokens \<Rightarrow>
                 (case get_epub_files e (fs st0) (folder_input st0) of
                    (epub_files, evs) \<Rightarrow>
                      if epub_files = [] then
                        (NothingToDo, emit (evs @ [MsgWarning ''No EPUB files found!'']) st0)
                      else
                        (let st1 = (emit (evs @ [SetProgress 0]) st0)
                               \<lparr>progress_maximum := int (length epub_files),
                                progress_value := 0\<rparr>;
                             csv_file = csv_path (dest_input st0) timestamp
                         in case open_w e (fs st1) csv_file of
                              None \<Rightarrow> (Raised, st1)
                            | Some f' \<Rightarrow>
                                (case process_files e (dest_input st0) max_tokens csv_file
                                        epub_files (0, begin_report csv_file f' st1)
                                 of (processed_count, st2) \<Rightarrow>
                                   (Completed,
                                    emit [MsgInformation processed_count csv_file] st2))))))"

section \<open>Notions the properties are stated with\<close>

definition is_xhtml :: "epub_item \<Rightarrow> bool" where
  "is_xhtml it = (media_type it = ''application/xhtml+xml'')"

text \<open>What one item adds to the text: its content decoded, nothing if reading it raises.\<close>

definition fragment :: "epub_item \<Rightarrow> string" where
  "fragment it = (case get_content it of None \<Rightarrow> [] | Some raw \<Rightarrow> decode_ignore raw)"

text \<open>A byte string is well-formed UTF-8 when it splits into well-formed sequences.\<close>

function well_formed :: "string \<Rightarrow> bool" where
  "well_formed [] = True"
| "well_formed (c # cs) =
     (if wf_len (c # cs) = 0 then False else well_formed (drop (wf_len (c # cs)) (c # cs)))"
  by pat_completeness auto
termination
  by (relation "measure length") auto

fun is_write_or_move :: "event \<Rightarrow> bool" where
  "is_write_or_move (WriteRow _ _) = True"
| "is_write_or_move (Move _ _) = True"
| "is_write_or_move _ = False"

text \<open>An archive without extractable text: no fragment of an XHTML item is non-empty.\<close>

definition no_text :: "epub_book \<Rightarrow> bool" where
  "no_text book = (\<forall>it \<in> set (get_items book). is_xhtml it \<longrightarrow> fragment it = [])"








subsection \<open>A small world to run the program in\<close>

text \<open>
  The tokenizer of the example makes one token of every byte. The source folder holds
  a short book, an oversized one, one whose only item is \<^verbatim>\<open>text/html\<close>, and one whose
  title element is empty.
\<close>

definition ex_env :: env where
  "ex_env = \<lparr>cwd = [], encode = (\<lambda>t. Some (map byte t)), scan_denied = (\<lambda>_. False),
             open_denied = (\<lambda>_. False), move_denied = (\<lambda>_ _. False)\<rparr>"

definition ex_fs :: filesys where
  "ex_fs =
     [([''src''], Dir), ([''dst''], Dir),
      ([''src'', ''A.epub''],
         File 1000 (Some (Book [Some ''A''] [Item ''application/xhtml+xml'' (Some ''hello'')]))),
      ([''src'', ''big.epub''],
         File 104857601
           (Some (Book [Some ''Big''] [Item ''application/xhtml+xml'' (Some ''hello'')]))),
      ([''src'', ''plain.epub''],
         File 10 (Some (Book [Some ''Plain''] [Item ''text/html'' (Some ''hello'')]))),
      ([''src'', ''untitled.epub''],
         File 10 (Some (Book [None] [Item ''application/xhtml+xml'' (Some ''hello'')])))]"

definition ex_st :: state where
  "ex_st = init ''/src'' ''/dst'' ''10'' ex_fs"

text \<open>A book whose first item ends in the middle of a three-byte sequence that the
  third item would complete; the second item is \<^verbatim>\<open>text/html\<close>.\<close>

definition ex_book :: epub_book where
  "ex_book =
     Book [Some ''T'']
       [Item ''application/xhtml+xml'' (Some [CHR ''a'', CHR 0xE2, CHR 0x82]),
        Item ''text/html'' (Some ''zzz''),
        Item ''application/xhtml+xml'' (Some [CHR 0xAC, CHR ''b''])]"




text \<open>A source folder with the book of 12 tokens only.\<close>

definition fs_long :: filesys where
  "fs_long =
     [([''src''], Dir), ([''dst''], Dir),
      ([''src'', ''B.epub''],
         File 2000
           (Some (Book [Some ''B''] [Item ''application/xhtml+xml'' (Some ''hello world!'')])))]"


definition fs_empty :: filesys where
  "fs_empty = [([''src''], Dir), ([''dst''], Dir)]"




definition run_first :: "outcome \<times> state" where
  "run_first =
     start_processing ex_env ''20240101_000000'' (init ''/src'' ''/dst'' ''10'' fs_long)"

definition run_second :: "outcome \<times> state" where
  "run_second = start_processing ex_env ''20240102_000000'' (snd run_first)"

section \<open>Properties\<close>

subsection \<open>Auxiliary facts\<close>

lemma emit_simps:
  "fs (emit evs st) = fs st"
  "reports (emit evs st) = reports st"
  "processed_files (emit evs st) = processed_files st"
  "progress_value (emit evs st) = progress_value st"
  "progress_maximum (emit evs st) = progress_maximum st"
  "folder_input (emit evs st) = folder_input st"
  "dest_input (emit evs st) = dest_input st"
  "token_input (emit evs st) = token_input st"
  "trace (emit evs st) = trace st @ evs"
  by (simp_all add: emit_def)

lemma writerow_simps:
  "fs (writerow c r st) = fs st"
  "processed_files (writerow c r st) = processed_files st"
  "progress_value (writerow c r st) = progress_value st"
  "progress_maximum (writerow c r st) = progress_maximum st"
  "folder_input (writerow c r st) = folder_input st"
  "dest_input (writerow c r st) = dest_input st"
  "token_input (writerow c r st) = token_input st"
  "trace (writerow c r st) = trace st @ [WriteRow c r]"
  "reports (writerow c r st) = (reports st)(c \<mapsto> rows_of st c @ [r])"
  by (simp_all add: writerow_def)


lemma begin_report_simps:
  "fs (begin_report c f' st) = f'"
  "processed_files (begin_report c f' st) = processed_files st"
  "rows_of (begin_report c f' st) c = [header]"
  by (simp_all add: begin_report_def writerow_simps emit_simps rows_of_def)

lemma ex_st_simps:
  "trace ex_st = []" "reports ex_st = Map.empty" "fs ex_st = ex_fs"
  "processed_files ex_st = {}" "folder_input ex_st = ''/src''" "dest_input ex_st = ''/dst''"
  "token_input ex_st = ''10''"
  by (simp_all add: ex_st_def init_def)

text \<open>Unfolding these evaluates the model on the small world.\<close>

lemmas fs_eval = ex_env_def ex_fs_def getsize_def node_at_def resolve_def is_dir_key_def
  path_exists_def read_epub_def

lemmas utf8_eval = byte_def cont_def second_ok_def



lemmas run_eval = start_processing_def validate_inputs_def py_int_def remove_commas_def
  strip_def is_space_def is_digit_def digit_val_def get_epub_files_def scandir_def children_def
  lower_def lower_char_def endswith_def join_def csv_path_def open_w_def process_file_def
  process_epub_def process_epub_content_def calculate_tokens_def get_epub_title_def
  record_and_move_def shutil_move_def move_target_def basename_def path_name_def
  begin_report_def emit_def writerow_def rows_of_def header_def init_def MAX_FILE_SIZE_def
  resolve_def node_at_def path_exists_def getsize_def read_epub_def is_dir_key_def
  byte_def cont_def second_ok_def ex_env_def Let_def char_of_def bit_Suc_0_iff

subsection \<open>The decoder\<close>

lemma wf_len_le: "wf_len bs \<le> length bs"
  by (cases bs) (auto split: list.splits)

lemma decode_ignore_subseq: "subseq (decode_ignore bs) bs"
proof (induction bs rule: decode_ignore.induct)
  case 1
  then show ?case by simp
next
  case (2 c cs)
  show ?case
  proof (cases "wf_len (c # cs) = 0")
    case True
    with 2(1) have "subseq (decode_ignore cs) cs" by simp
    then have "subseq (decode_ignore cs) (c # cs)" by (rule list_emb_Cons)
    with True show ?thesis by (simp del: wf_len.simps)
  next
    case False
    let ?n = "wf_len (c # cs)"
    have "subseq (take ?n (c # cs) @ decode_ignore (drop ?n (c # cs)))
                 (take ?n (c # cs) @ drop ?n (c # cs))"
      using 2(2)[OF False] by (intro list_emb_append_mono) auto
    then show ?thesis using False by (simp del: wf_len.simps)
  qed
qed

lemma decode_ignore_well_formed: "well_formed bs \<Longrightarrow> decode_ignore bs = bs"
proof (induction bs rule: decode_ignore.induct)
  case 1
  then show ?case by simp
next
  case (2 c cs)
  let ?n = "wf_len (c # cs)"
  from 2(3) have n: "?n \<noteq> 0" and w: "well_formed (drop ?n (c # cs))"
    by (simp_all del: wf_len.simps split: if_splits)
  from 2(2)[OF n w] have "decode_ignore (drop ?n (c # cs)) = drop ?n (c # cs)" .
  then have "decode_ignore (c # cs) = take ?n (c # cs) @ drop ?n (c # cs)"
    using n by (simp del: wf_len.simps)
  then show ?case by (simp del: wf_len.simps)
qed

lemma wf_len_take:
  "wf_len bs \<noteq> 0 \<Longrightarrow> wf_len (take (wf_len bs) bs @ ys) = wf_len bs"
  by (cases bs) (auto split: list.splits if_splits)

lemma well_formed_prefix:
  assumes "wf_len bs \<noteq> 0"
  shows "well_formed (take (wf_len bs) bs @ ys) = well_formed ys"
proof -
  let ?n = "wf_len bs"
  from assms obtain c cs where bs: "bs = c # cs" by (cases bs) auto
  have le: "?n \<le> length bs" by (rule wf_len_le)
  obtain d ds where t: "take ?n bs @ ys = d # ds"
    using assms bs by (cases "take ?n bs @ ys") auto
  have "wf_len (d # ds) = ?n" using wf_len_take[OF assms, of ys] t by simp
  moreover have "drop ?n (d # ds) = ys"
    using t le by (metis append_eq_conv_conj length_take min.absorb2)
  ultimately have "well_formed (d # ds) = well_formed ys"
    using assms by (simp del: wf_len.simps)
  with t show ?thesis by simp
qed

lemma decode_ignore_is_well_formed: "well_formed (decode_ignore bs)"
proof (induction bs rule: decode_ignore.induct)
  case 1
  then show ?case by simp
next
  case (2 c cs)
  show ?case
  proof (cases "wf_len (c # cs) = 0")
    case True
    with 2(1) show ?thesis by (simp del: wf_len.simps)
  next
    case False
    from 2(2)[OF False] well_formed_prefix[OF False]
    show ?thesis using False by (simp del: wf_len.simps)
  qed
qed

subsection \<open>The text of an archive\<close>

lemma content_loop_text:
  "fst (content_loop its acc) = acc @ concat (map fragment (filter is_xhtml its))"
  by (induction its arbitrary: acc)
     (auto simp: is_xhtml_def fragment_def split_beta split: option.splits)

lemma content_loop_filter:
  "content_loop (filter is_xhtml its) acc = content_loop its acc"
  by (induction its arbitrary: acc)
     (auto simp: is_xhtml_def split: option.splits)

lemma process_epub_content_count:
  "fst (process_epub_content e book) =
     (if concat (map fragment (filter is_xhtml (get_items book))) = [] then None
      else map_option (\<lambda>tokens. int (length tokens))
             (encode e (concat (map fragment (filter is_xhtml (get_items book))))))"
proof -
  have "fst (content_loop (get_items book) []) =
          concat (map fragment (filter is_xhtml (get_items book)))"
    by (simp add: content_loop_text)
  then show ?thesis
    by (auto simp: process_epub_content_def calculate_tokens_def split_beta
             split: option.splits)
qed

text \<open>
  Claim C10. Only the items whose media type is exactly
  \<^verbatim>\<open>application/xhtml+xml\<close> contribute to the text that is counted: the text is the
  concatenation, in the order of the container, of the fragments of these items, and
  removing every other item (one of type \<^verbatim>\<open>text/html\<close>, say) changes neither the
  text nor what is logged. Each fragment is decoded on its own, and decoding only drops
  bytes: the result is a subsequence of the content, is well-formed UTF-8, and is the
  content itself when that is well-formed.
\<close>

theorem only_xhtml_items_contribute:
  "fst (content_loop (get_items book) []) =
     concat (map fragment (filter is_xhtml (get_items book)))
   \<and> content_loop (filter is_xhtml (get_items book)) [] = content_loop (get_items book) []
   \<and> \<not> is_xhtml (Item ''text/html'' c)
   \<and> fst (process_epub_content e book) =
       (if concat (map fragment (filter is_xhtml (get_items book))) = [] then None
        else map_option (\<lambda>tokens. int (length tokens))
               (encode e (concat (map fragment (filter is_xhtml (get_items book))))))
   \<and> fragment (Item t (Some raw)) = decode_ignore raw
   \<and> subseq (decode_ignore raw) raw
   \<and> well_formed (decode_ignore raw)
   \<and> (well_formed raw \<longrightarrow> decode_ignore raw = raw)"
proof -
  have "fst (content_loop (get_items book) []) =
          concat (map fragment (filter is_xhtml (get_items book)))"
    by (simp add: content_loop_text)
  moreover have "\<not> is_xhtml (Item ''text/html'' c)"
    by (simp add: is_xhtml_def)
  moreover have "fragment (Item t (Some raw)) = decode_ignore raw"
    by (simp add: fragment_def)
  ultimately show ?thesis
    using content_loop_filter[of "get_items book" "[]"] process_epub_content_count[of e book]
      decode_ignore_subseq[of raw] decode_ignore_is_well_formed[of raw]
      decode_ignore_well_formed[of raw]
    by blast
qed

text \<open>
  In the example the first item ends inside a three-byte sequence that the third item
  would complete: decoded on their own, the two fragments lose these bytes, where the
  concatenated contents would decode whole.
\<close>

theorem only_xhtml_items_contribute_witness:
  "fst (content_loop (get_items ex_book) []) = ''ab''
   \<and> filter is_xhtml (get_items ex_book) =
       [Item ''application/xhtml+xml'' (Some [CHR ''a'', CHR 0xE2, CHR 0x82]),
        Item ''application/xhtml+xml'' (Some [CHR 0xAC, CHR ''b''])]
   \<and> fst (process_epub_content ex_env ex_book) = Some 2
   \<and> decode_ignore [CHR ''a'', CHR 0xE2, CHR 0x82] = ''a''
   \<and> decode_ignore [CHR 0xAC, CHR ''b''] = ''b''
   \<and> well_formed [CHR ''a'', CHR 0xE2, CHR 0x82, CHR 0xAC, CHR ''b'']
   \<and> decode_ignore [CHR ''a'', CHR 0xE2, CHR 0x82, CHR 0xAC, CHR ''b''] =
       [CHR ''a'', CHR 0xE2, CHR 0x82, CHR 0xAC, CHR ''b'']"
proof -
  have w: "well_formed [CHR ''a'', CHR 0xE2, CHR 0x82, CHR 0xAC, CHR ''b'']"
    by (simp add: utf8_eval)
  have f: "filter is_xhtml (get_items ex_book) =
       [Item ''application/xhtml+xml'' (Some [CHR ''a'', CHR 0xE2, CHR 0x82]),
        Item ''application/xhtml+xml'' (Some [CHR 0xAC, CHR ''b''])]"
    by (simp add: ex_book_def is_xhtml_def)
  have d: "decode_ignore [CHR ''a'', CHR 0xE2, CHR 0x82] = ''a''"
    "decode_ignore [CHR 0xAC, CHR ''b''] = ''b''"
    by (simp_all add: utf8_eval)
  note T = only_xhtml_items_contribute[where book = ex_book and e = ex_env
        and raw = "[CHR ''a'', CHR 0xE2, CHR 0x82, CHR 0xAC, CHR ''b'']"]
  have 1: "fst (content_loop (get_items ex_book) []) = ''ab''"
    using T[THEN conjunct1] by (simp add: f fragment_def utf8_eval)
  have 2: "fst (process_epub_content ex_env ex_book) = Some 2"
    using T[THEN conjunct2, THEN conjunct2, THEN conjunct2, THEN conjunct1]
    by (simp add: f fragment_def ex_env_def utf8_eval)
  have 3: "decode_ignore [CHR ''a'', CHR 0xE2, CHR 0x82, CHR 0xAC, CHR ''b''] =
       [CHR ''a'', CHR 0xE2, CHR 0x82, CHR 0xAC, CHR ''b'']"
    by (rule T[THEN conjunct2, THEN conjunct2, THEN conjunct2, THEN conjunct2,
          THEN conjunct2, THEN conjunct2, THEN conjunct2, THEN mp, OF w])
  show ?thesis by (intro conjI) (rule 1 f 2 d 3 w)+
qed

subsection \<open>Paths\<close>













subsection \<open>One turn of the loop\<close>

lemma content_loop_events:
  "ev \<in> set (snd (content_loop its acc)) \<Longrightarrow> ev = Log ERROR ''Error processing EPUB item''"
  by (induction its arbitrary: acc) (auto simp: split_beta split: option.splits if_splits)

lemma process_epub_content_events:
  "ev \<in> set (snd (process_epub_content e book)) \<Longrightarrow> \<exists>s. ev = Log ERROR s"
  by (auto simp: process_epub_content_def calculate_tokens_def split_beta
           split: if_splits option.splits dest: content_loop_events)

lemma process_epub_events:
  "ev \<in> set (snd (process_epub e f p)) \<Longrightarrow> \<not> is_write_or_move ev"
  by (auto simp: process_epub_def split_beta split: if_splits option.splits
           dest!: process_epub_content_events)


lemma process_file_skip:
  "p \<in> processed_files st \<Longrightarrow> process_file e d m c p (k, st) = (k, st)"
  by (simp add: process_file_def)

lemma process_file_unrecorded:
  assumes "p \<notin> processed_files st"
    and "process_epub e (fs st) p = ((t, n), evs)"
    and "\<not> (truthy_str t \<and> truthy_int n)"
  shows "process_file e d m c p (k, st) =
           (k + 1, st\<lparr>processed_files := insert p (processed_files st),
                      progress_value := k + 1,
                      trace := trace st @ evs @ [SetProgress (k + 1), ProcessEvents]\<rparr>)"
  using assms
  by (cases t; cases n) (auto simp: process_file_def emit_def)

lemma process_file_recorded:
  assumes "p \<notin> processed_files st"
    and "process_epub e (fs st) p = ((Some t, Some n), evs)"
    and "t \<noteq> []" and "n \<noteq> 0"
  shows "process_file e d m c p (k, st) =
           (k + 1, emit [SetProgress (k + 1), ProcessEvents]
                     ((record_and_move e d m c p t n (emit evs st))
                        \<lparr>processed_files :=
                           insert p (processed_files (record_and_move e d m c p t n (emit evs st))),
                         progress_value := k + 1\<rparr>))"
  using assms by (simp add: process_file_def Let_def)




lemma record_and_move_processed:
  "processed_files (record_and_move e d m c p t n st) = processed_files st"
  by (simp add: record_and_move_def Let_def writerow_simps emit_simps split: option.splits)






lemma no_text_content: "no_text book \<Longrightarrow> fst (content_loop (get_items book) []) = []"
  by (simp add: content_loop_text no_text_def)

lemma no_text_count: "no_text book \<Longrightarrow> fst (process_epub_content e book) = None"
  by (simp add: process_epub_content_count no_text_def)

lemma process_epub_no_text:
  assumes "read_epub e f p = Some book" and "no_text book"
  shows "snd (fst (process_epub e f p)) = None"
  using assms no_text_count[OF assms(2), of e]
  by (auto simp: process_epub_def split_beta split: option.splits)

text \<open>
  Claim C5. For an archive in which no fragment of an XHTML item is non-empty, the turn
  of the loop on it leaves the reports and the file system as they were, and adds to the
  trace neither a written row nor a move.
\<close>

theorem no_text_no_row_no_move:
  assumes "read_epub e (fs st) p = Some book" and "no_text book"
  shows "(case process_file e d m c p (k, st) of
            (k', st') \<Rightarrow>
              reports st' = reports st \<and> fs st' = fs st
              \<and> filter is_write_or_move (drop (length (trace st)) (trace st')) = [])"
proof (cases "p \<in> processed_files st")
  case True
  then show ?thesis by (simp add: process_file_skip)
next
  case False
  obtain t n evs where r: "process_epub e (fs st) p = ((t, n), evs)"
    by (metis surj_pair)
  with process_epub_no_text[OF assms] have n: "n = None" by simp
  have "filter is_write_or_move evs = []"
    using process_epub_events[of _ e "fs st" p] r by (simp add: filter_empty_conv)
  moreover have "\<not> (truthy_str t \<and> truthy_int n)" using n by simp
  ultimately show ?thesis
    using process_file_unrecorded[OF False r, of d m c k] by simp
qed

theorem no_text_no_row_no_move_witness:
  "read_epub ex_env (fs ex_st) ''/src/plain.epub'' =
     Some (Book [Some ''Plain''] [Item ''text/html'' (Some ''hello'')])
   \<and> no_text (Book [Some ''Plain''] [Item ''text/html'' (Some ''hello'')])
   \<and> (case process_file ex_env ''/dst'' 10 ''/dst/r.csv'' ''/src/plain.epub'' (0, ex_st) of
         (k', st') \<Rightarrow>
           reports st' = Map.empty \<and> fs st' = ex_fs
           \<and> filter is_write_or_move (trace st') = [])"
proof -
  have h1: "read_epub ex_env (fs ex_st) ''/src/plain.epub'' =
     Some (Book [Some ''Plain''] [Item ''text/html'' (Some ''hello'')])"
    by (simp add: ex_st_simps fs_eval)
  have h2: "no_text (Book [Some ''Plain''] [Item ''text/html'' (Some ''hello'')])"
    by (simp add: no_text_def is_xhtml_def)
  note T = no_text_no_row_no_move[OF h1 h2, where d = "''/dst''" and m = 10
      and c = "''/dst/r.csv''" and k = 0]
  have a: "(case process_file ex_env ''/dst'' 10 ''/dst/r.csv'' ''/src/plain.epub'' (0, ex_st) of
         (k', st') \<Rightarrow>
           reports st' = Map.empty \<and> fs st' = ex_fs
           \<and> filter is_write_or_move (trace st') = [])"
    using T by (simp add: ex_st_simps split: prod.splits)
  show ?thesis
    by (intro conjI) (rule h1, rule h2, rule a)
qed








subsection \<open>The rows of the report\<close>





lemma validate_inputs_emit: "validate_inputs e (emit evs st) = validate_inputs e st"
  by (simp add: validate_inputs_def emit_simps)

lemma validate_inputs_iff:
  "fst (validate_inputs e st) \<longleftrightarrow>
     (\<exists>n. py_int (remove_commas (token_input st)) = Some n \<and> 0 < n)
     \<and> path_exists e (fs st) (folder_input st)
     \<and> path_exists e (fs st) (dest_input st)"
  by (auto simp: validate_inputs_def split: option.splits)


lemma start_processing_empty:
  assumes "fst (validate_inputs e st)"
    and "get_epub_files e (fs st) (folder_input st) = ([], evs)"
  shows "start_processing e ts st =
           (NothingToDo, st\<lparr>trace := trace st @
              SaveSettings (folder_input st) (dest_input st) (token_input st) #
              evs @ [MsgWarning ''No EPUB files found!'']\<rparr>)"
proof -
  from assms(1) obtain n where "py_int (remove_commas (token_input st)) = Some n"
    by (auto simp: validate_inputs_iff)
  with assms show ?thesis
    by (simp add: start_processing_def Let_def validate_inputs_emit split_beta emit_simps)
qed

lemma start_processing_completed:
  assumes "start_processing e ts st = (Completed, st')"
  shows "\<exists>m files evs f' st1.
           py_int (remove_commas (token_input st)) = Some m
           \<and> get_epub_files e (fs st) (folder_input st) = (files, evs)
           \<and> open_w e (fs st) (csv_path (dest_input st) ts) = Some f'
           \<and> fs st1 = fs st \<and> processed_files st1 = processed_files st
           \<and> st' = emit [MsgInformation
                           (fst (process_files e (dest_input st) m (csv_path (dest_input st) ts)
                                   files (0, begin_report (csv_path (dest_input st) ts) f' st1)))
                           (csv_path (dest_input st) ts)]
                     (snd (process_files e (dest_input st) m (csv_path (dest_input st) ts)
                             files (0, begin_report (csv_path (dest_input st) ts) f' st1)))"
proof -
  let ?c = "csv_path (dest_input st) ts"
  obtain files evs where g: "get_epub_files e (fs st) (folder_input st) = (files, evs)"
    by (metis surj_pair)
  let ?st1 = "(emit (evs @ [SetProgress 0])
                 (emit [SaveSettings (folder_input st) (dest_input st) (token_input st)] st))
              \<lparr>progress_maximum := int (length files), progress_value := 0\<rparr>"
  from assms g obtain m f' where m: "py_int (remove_commas (token_input st)) = Some m"
    and o: "open_w e (fs st) ?c = Some f'"
    and st': "st' = emit [MsgInformation
                           (fst (process_files e (dest_input st) m ?c files
                                   (0, begin_report ?c f' ?st1))) ?c]
                      (snd (process_files e (dest_input st) m ?c files
                              (0, begin_report ?c f' ?st1)))"
    by (auto simp: start_processing_def Let_def validate_inputs_emit split_beta emit_simps
             split: if_splits option.splits)
  have "fs ?st1 = fs st" "processed_files ?st1 = processed_files st"
    by (simp_all add: emit_simps)
  with m g o st' show ?thesis by blast
qed




subsection \<open>Validation and the empty catalog\<close>




text \<open>
  Claim C7. When the inputs are valid and no candidate is found, the call ends as
  \<open>NothingToDo\<close> in the state it started in but for the trace, which gets the settings
  being saved, what the scan logged and one warning message box: no report is opened, and
  the file system and the reports are as they were.
\<close>

theorem nothing_to_do:
  assumes "fst (validate_inputs e st)"
    and "fst (get_epub_files e (fs st) (folder_input st)) = []"
  shows "start_processing e ts st =
           (NothingToDo, st\<lparr>trace := trace st @
              SaveSettings (folder_input st) (dest_input st) (token_input st) #
              snd (get_epub_files e (fs st) (folder_input st)) @
              [MsgWarning ''No EPUB files found!'']\<rparr>)"
proof -
  from assms(2)
  have "get_epub_files e (fs st) (folder_input st) =
          ([], snd (get_epub_files e (fs st) (folder_input st)))"
    by (metis prod.collapse)
  from start_processing_empty[OF assms(1) this] show ?thesis .
qed

theorem nothing_to_do_witness:
  "fst (validate_inputs ex_env (init ''/src'' ''/dst'' ''1,000'' fs_empty))
   \<and> fst (get_epub_files ex_env (fs (init ''/src'' ''/dst'' ''1,000'' fs_empty))
            (folder_input (init ''/src'' ''/dst'' ''1,000'' fs_empty))) = []
   \<and> start_processing ex_env ''20240101_000000'' (init ''/src'' ''/dst'' ''1,000'' fs_empty) =
       (NothingToDo,
        (init ''/src'' ''/dst'' ''1,000'' fs_empty)
          \<lparr>trace := [SaveSettings ''/src'' ''/dst'' ''1,000'',
                     MsgWarning ''No EPUB files found!'']\<rparr>)"
proof -
  let ?st = "init ''/src'' ''/dst'' ''1,000'' fs_empty"
  have h1: "fst (validate_inputs ex_env ?st)"
    by (simp add: run_eval fs_empty_def)
  have h2: "fst (get_epub_files ex_env (fs ?st) (folder_input ?st)) = []"
    by (simp add: run_eval fs_empty_def)
  have ev: "snd (get_epub_files ex_env (fs ?st) (folder_input ?st)) = []"
    by (simp add: run_eval fs_empty_def)
  have a: "start_processing ex_env ''20240101_000000'' ?st =
       (NothingToDo,
        ?st\<lparr>trace := [SaveSettings ''/src'' ''/dst'' ''1,000'',
                     MsgWarning ''No EPUB files found!'']\<rparr>)"
    using nothing_to_do[OF h1 h2, where ts = "''20240101_000000''"]
    by (simp add: ev) (simp add: init_def)
  show ?thesis
    by (intro conjI) (rule h1, rule h2, rule a)
qed

subsection \<open>The processed set\<close>

lemma process_file_processed:
  "processed_files (snd (process_file e d m c p (k, st))) = insert p (processed_files st)"
proof (cases "p \<in> processed_files st")
  case True
  then show ?thesis by (auto simp: process_file_skip)
next
  case False
  obtain t n evs where r: "process_epub e (fs st) p = ((t, n), evs)"
    by (metis surj_pair)
  show ?thesis
  proof (cases "truthy_str t \<and> truthy_int n")
    case True
    then obtain t' n' where tn: "t = Some t'" "n = Some n'" "t' \<noteq> []" "n' \<noteq> 0"
      by (cases t; cases n) auto
    show ?thesis
      using False r tn
      by (simp add: process_file_recorded record_and_move_processed emit_simps)
  next
    case nt: False
    from process_file_unrecorded[OF False r nt, of d m c k]
    show ?thesis by simp
  qed
qed

lemma process_files_processed:
  "processed_files (snd (process_files e d m c ps cs)) = processed_files (snd cs) \<union> set ps"
proof (induction ps arbitrary: cs)
  case Nil
  then show ?case by simp
next
  case (Cons p ps)
  obtain k st where cs: "cs = (k, st)" by (cases cs)
  show ?case
    using Cons.IH[of "process_file e d m c p cs"] process_file_processed[of e d m c p k st]
    by (simp add: cs)
qed

lemma start_processing_processed:
  "processed_files st \<subseteq> processed_files (snd (start_processing e ts st))"
proof (cases "fst (start_processing e ts st) = Completed")
  case True
  then have "start_processing e ts st = (Completed, snd (start_processing e ts st))"
    by (metis prod.collapse)
  from start_processing_completed[OF this] show ?thesis
    by (auto simp: emit_simps process_files_processed begin_report_simps)
next
  case False
  then show ?thesis
    by (auto simp: start_processing_def Let_def split_beta emit_simps
             split: if_splits option.splits)
qed

text \<open>
  Claim C9, as amended. The processed set is empty when the instance is created and no
  run removes anything from it: a completed run adds all its candidates, and the next
  run on the same instance starts with them. A candidate that is in the set is skipped by
  the loop: the turn changes nothing, not even the progress counter.
\<close>

theorem processed_set_across_runs:
  "processed_files (init a b t f) = {}
   \<and> processed_files st \<subseteq> processed_files (snd (start_processing e ts st))
   \<and> (start_processing e ts st = (Completed, st') \<longrightarrow>
        processed_files st' =
          processed_files st \<union> set (fst (get_epub_files e (fs st) (folder_input st))))
   \<and> (p \<in> processed_files st \<longrightarrow> process_file e d m c p (k, st) = (k, st))"
proof (intro conjI impI)
  show "processed_files (init a b t f) = {}"
    by (simp add: init_def)
next
  show "processed_files st \<subseteq> processed_files (snd (start_processing e ts st))"
    by (rule start_processing_processed)
next
  let ?c = "csv_path (dest_input st) ts"
  assume "start_processing e ts st = (Completed, st')"
  from start_processing_completed[OF this] obtain mx files evs f' st1 where
    g: "get_epub_files e (fs st) (folder_input st) = (files, evs)"
    and s1: "processed_files st1 = processed_files st"
    and st': "st' = emit [MsgInformation
                     (fst (process_files e (dest_input st) mx ?c files
                             (0, begin_report ?c f' st1))) ?c]
                   (snd (process_files e (dest_input st) mx ?c files
                           (0, begin_report ?c f' st1)))"
    by blast
  show "processed_files st' =
          processed_files st \<union> set (fst (get_epub_files e (fs st) (folder_input st)))"
    unfolding st' by (simp add: emit_simps process_files_processed begin_report_simps s1 g)
next
  assume "p \<in> processed_files st"
  then show "process_file e d m c p (k, st) = (k, st)"
    by (rule process_file_skip)
qed

theorem processed_set_across_runs_witness:
  "(case start_processing ex_env ''20240101_000000'' (init ''/src'' ''/dst'' ''10'' fs_long) of
      (out1, st1) \<Rightarrow>
        out1 = Completed
        \<and> fst (get_epub_files ex_env fs_long ''/src'') = [''/src/B.epub'']
        \<and> processed_files st1 = {''/src/B.epub''}
        \<and> process_file ex_env ''/dst'' 10 ''/dst/r.csv'' ''/src/B.epub'' (0, st1) = (0, st1))"
proof -
  let ?st = "init ''/src'' ''/dst'' ''10'' fs_long"
  let ?r = "start_processing ex_env ''20240101_000000'' ?st"
  have g: "fst (get_epub_files ex_env fs_long ''/src'') = [''/src/B.epub'']"
    by (simp add: run_eval fs_long_def)
  have c: "fst ?r = Completed"
    by (simp add: run_eval fs_long_def)
  then have h: "?r = (Completed, snd ?r)"
    by (metis prod.collapse)
  have st: "fs ?st = fs_long" "folder_input ?st = ''/src''" "processed_files ?st = {}"
    by (simp_all add: init_def)
  note T = processed_set_across_runs[where e = ex_env and st = ?st and ts = "''20240101_000000''"
      and st' = "snd ?r"]
  from T[THEN conjunct2, THEN conjunct2, THEN conjunct1, THEN mp, OF h]
  have p: "processed_files (snd ?r) = {''/src/B.epub''}"
    by (simp add: st g)
  then have i: "''/src/B.epub'' \<in> processed_files (snd ?r)" by simp
  from processed_set_across_runs[where st = "snd ?r" and p = "''/src/B.epub''"
      and e = ex_env and d = "''/dst''" and m = 10 and c = "''/dst/r.csv''" and k = 0,
      THEN conjunct2, THEN conjunct2, THEN conjunct2, THEN mp, OF i]
  have s: "process_file ex_env ''/dst'' 10 ''/dst/r.csv'' ''/src/B.epub'' (0, snd ?r) =
             (0, snd ?r)" .
  obtain o1 s1 where r: "?r = (o1, s1)"
    by (cases ?r)
  from c r have c': "o1 = Completed" by simp
  from p r have p': "processed_files s1 = {''/src/B.epub''}" by simp
  from s r have s': "process_file ex_env ''/dst'' 10 ''/dst/r.csv'' ''/src/B.epub'' (0, s1) =
                       (0, s1)" by simp
  show ?thesis
    unfolding r prod.case by (intro conjI) (rule c', rule g, rule p', rule s')
qed

lemma run_first_eval:
  "(case run_first of
      (out, st') \<Rightarrow>
        out = Completed
        \<and> rows_of st' ''/dst/epub_token_counts_20240101_000000.csv'' =
            [header, [Str ''B'', Num 12, Str ''/src/B.epub'']]
        \<and> processed_files st' = {''/src/B.epub''}
        \<and> fst (get_epub_files ex_env (fs st') (folder_input st')) = [''/src/B.epub''])"
  by (simp add: run_first_def run_eval fs_long_def)

lemma run_second_eval:
  "(case run_second of
      (out, st') \<Rightarrow>
        out = Completed
        \<and> rows_of st' ''/dst/epub_token_counts_20240102_000000.csv'' = [header]
        \<and> last (trace st') = MsgInformation 0 ''/dst/epub_token_counts_20240102_000000.csv'')"
  by (simp add: run_second_def run_first_def run_eval fs_long_def)

text \<open>
  The claim as stated fails on a second run of the same instance: the book of 12 tokens
  stays in the source folder after the first run (threshold 10), the set is not empty when
  the second run starts, and the second run lists the book as a candidate, skips it and
  writes a report with the header only.
\<close>

theorem processed_set_across_runs_counterexample:
  "fst run_first = Completed
   \<and> rows_of (snd run_first) ''/dst/epub_token_counts_20240101_000000.csv'' =
       [header, [Str ''B'', Num 12, Str ''/src/B.epub'']]
   \<and> processed_files (snd run_first) = {''/src/B.epub''}
   \<and> fst (get_epub_files ex_env (fs (snd run_first)) (folder_input (snd run_first))) =
       [''/src/B.epub'']
   \<and> fst run_second = Completed
   \<and> rows_of (snd run_second) ''/dst/epub_token_counts_20240102_000000.csv'' = [header]
   \<and> last (trace (snd run_second)) =
       MsgInformation 0 ''/dst/epub_token_counts_20240102_000000.csv''"
proof -
  obtain o1 s1 where r1: "run_first = (o1, s1)"
    by (cases run_first)
  obtain o2 s2 where r2: "run_second = (o2, s2)"
    by (cases run_second)
  show ?thesis
    using run_first_eval run_second_eval unfolding r1 r2 by simp
qed

subsection \<open>Listing the candidates\<close>








end
